theory Spec2Isabelle
  imports Complex_Main
begin

section \<open>Values, property access and object literals\<close>

text \<open>
  The style functions build plain JavaScript objects. A value is modelled by \<open>jsval\<close>;
  an object is its list of properties in insertion order, which is the order
  \<open>JSON.stringify\<close> writes them in. (The only numeric keys of the sources, \<open>0\<close> to
  \<open>3\<close>, \<open>100\<close>, \<open>300\<close>, \<open>500\<close> and \<open>1\<close> to \<open>8\<close>, are written first and
  ascending, where insertion order and JavaScript's own key order agree.)
\<close>

datatype jsval =
    JUndefined
  | JBool bool
  | JNum real
  | JStr string
  | JArr "jsval list"
  | JObj "(string \<times> jsval) list"

datatype error =
    TypeError
  | InvalidRampError
  | DanglingExtendsError string
  | CyclicExtendsError
  | DepthExceeded

definition bindE :: "error + 'a \<Rightarrow> ('a \<Rightarrow> error + 'b) \<Rightarrow> error + 'b" where
  "bindE m f = (case m of Inl e \<Rightarrow> Inl e | Inr v \<Rightarrow> f v)"

text \<open>
  \<open>v.k\<close> and \<open>v[k]\<close>: reading a property of \<open>undefined\<close> throws a TypeError, a
  property an object does not have reads as \<open>undefined\<close>. The sources read no property
  of a number, string, boolean or array; such a read is modelled as \<open>undefined\<close>.
\<close>

definition getProp :: "jsval \<Rightarrow> string \<Rightarrow> error + jsval" where
  "getProp v k =
     (case v of
        JUndefined \<Rightarrow> Inl TypeError
      | JObj kvs \<Rightarrow> Inr (case map_of kvs k of None \<Rightarrow> JUndefined | Some x \<Rightarrow> x)
      | _ \<Rightarrow> Inr JUndefined)"

fun getPath :: "jsval \<Rightarrow> string list \<Rightarrow> error + jsval" where
  "getPath v [] = Inr v"
| "getPath v (k # ks) = bindE (getProp v k) (\<lambda>w. getPath w ks)"

text \<open>JavaScript truthiness, as \<open>||\<close> and \<open>? :\<close> test it.\<close>

fun truthy :: "jsval \<Rightarrow> bool" where
  "truthy JUndefined = False"
| "truthy (JBool b) = b"
| "truthy (JNum n) = (n \<noteq> 0)"
| "truthy (JStr s) = (s \<noteq> [])"
| "truthy (JArr xs) = True"
| "truthy (JObj kvs) = True"

text \<open>
  Assigning a property: an existing key keeps its place and takes the new value, a new
  key goes last.
\<close>

fun oset :: "string \<Rightarrow> jsval \<Rightarrow> (string \<times> jsval) list \<Rightarrow> (string \<times> jsval) list" where
  "oset k v [] = [(k, v)]"
| "oset k v (p # kvs) = (if fst p = k then (k, v) # kvs else p # oset k v kvs)"

fun spreadInto :: "jsval \<Rightarrow> (string \<times> jsval) list \<Rightarrow> (string \<times> jsval) list" where
  "spreadInto (JObj kvs) acc = fold (\<lambda>p. oset (fst p) (snd p)) kvs acc"
| "spreadInto v acc = acc"

text \<open>
  An object literal \<open>{ k: e, ...e', ... }\<close>: its initialisers run in order, the first
  one that throws ends the literal, \<open>...e\<close> copies the properties of an object and
  nothing of \<open>undefined\<close>.
\<close>

datatype init = Prop string "error + jsval" | Spread "error + jsval"

fun objLit :: "init list \<Rightarrow> (string \<times> jsval) list \<Rightarrow> error + jsval" where
  "objLit [] acc = Inr (JObj acc)"
| "objLit (Prop k e # ins) acc =
     (case e of Inl err \<Rightarrow> Inl err | Inr v \<Rightarrow> objLit ins (oset k v acc))"
| "objLit (Spread e # ins) acc =
     (case e of Inl err \<Rightarrow> Inl err | Inr v \<Rightarrow> objLit ins (spreadInto v acc))"

definition obj :: "init list \<Rightarrow> error + jsval" where
  "obj ins = objLit ins []"

fun arrLit :: "(error + jsval) list \<Rightarrow> jsval list \<Rightarrow> error + jsval" where
  "arrLit [] acc = Inr (JArr (rev acc))"
| "arrLit (e # es) acc = (case e of Inl err \<Rightarrow> Inl err | Inr v \<Rightarrow> arrLit es (v # acc))"

definition num :: "real \<Rightarrow> error + jsval" where
  "num x = Inr (JNum x)"

text \<open>
  The initialiser that decides a key of a literal: the last \<open>Prop\<close> for the key, when no
  spread follows it (a spread may or may not carry the key, so it leaves the key
  undecided until the next \<open>Prop\<close>).
\<close>

fun finalInit :: "string \<Rightarrow> init list \<Rightarrow> (error + jsval) option \<Rightarrow> (error + jsval) option" where
  "finalInit k [] cur = cur"
| "finalInit k (Prop k' e # ins) cur = finalInit k ins (if k' = k then Some e else cur)"
| "finalInit k (Spread e # ins) cur = finalInit k ins None"


section \<open>A theme: themes/cave\<close>

text \<open>
  \<open>cave(darkTheme)\<close> assembles a theme from two four-step neutral palettes and eight
  accent colours. Its imports \<open>color\<close> and \<open>fontWeights\<close> (of \<open>../tokens\<close>),
  \<open>withOpacity\<close> (of \<open>../utils/color\<close>) and \<open>buildPlayer\<close> (of \<open>./theme\<close>) are not
  among the sources and are parameters; \<open>buildPlayer\<close> returns a \<open>Player\<close> object,
  given by its properties. \<open>sel v k\<close> reads a property of an object that the function
  has just built, where the read cannot throw.
\<close>

definition sel :: "jsval \<Rightarrow> string \<Rightarrow> jsval" where
  "sel v k = (case getProp v k of Inl e \<Rightarrow> JUndefined | Inr x \<Rightarrow> x)"

text \<open>\<^verbatim>\<open>// Dark: 0 == Darkest, 3 == Lightest\<close>\<close>

definition dark :: "(string \<Rightarrow> jsval) \<Rightarrow> jsval" where
  "dark color = JObj
     [(''0'', color ''#19171c''),
      (''1'', color ''#26232a''),
      (''2'', color ''#585260''),
      (''3'', color ''#655f6d'')]"

text \<open>\<^verbatim>\<open>// Light: 0 == Lightest, 3 == Darkest\<close>\<close>

definition light :: "(string \<Rightarrow> jsval) \<Rightarrow> jsval" where
  "light color = JObj
     [(''0'', color ''#efecf4''),
      (''1'', color ''#e2dfe7''),
      (''2'', color ''#8b8792''),
      (''3'', color ''#7e7887'')]"

definition colors :: "(string \<Rightarrow> jsval) \<Rightarrow> jsval" where
  "colors color = JObj
     [(''red'', color ''#be4678''),
      (''orange'', color ''#aa573c''),
      (''yellow'', color ''#a06e3b''),
      (''green'', color ''#2a9292''),
      (''cyan'', color ''#398bc6''),
      (''blue'', color ''#576ddb''),
      (''violet'', color ''#955ae7''),
      (''magenta'', color ''#bf40bf'')]"

definition states4 :: "jsval \<Rightarrow> jsval \<Rightarrow> jsval \<Rightarrow> jsval \<Rightarrow> jsval" where
  "states4 b h a f = JObj [(''base'', b), (''hovered'', h), (''active'', a), (''focused'', f)]"

definition syntaxStyle :: "jsval \<Rightarrow> jsval \<Rightarrow> jsval" where
  "syntaxStyle c w = JObj [(''color'', c), (''weight'', w)]"

definition cave ::
  "(string \<Rightarrow> jsval) \<Rightarrow> (string \<Rightarrow> jsval) \<Rightarrow> (jsval \<Rightarrow> real \<Rightarrow> jsval)
     \<Rightarrow> (jsval \<Rightarrow> (string \<times> jsval) list) \<Rightarrow> bool \<Rightarrow> jsval" where
  "cave color fontWeights withOpacity buildPlayer darkTheme =
    (let fg = (if darkTheme then light color else dark color);
         bg = (if darkTheme then dark color else light color);
         name = (if darkTheme then ''cave-dark'' else ''cave-light'');
         cs = colors color;
         backgroundColor = JObj
           [(''100'', states4 (sel bg ''1'') (sel bg ''3'') (sel bg ''3'') (sel bg ''3'')),
            (''300'', states4 (sel bg ''1'') (sel bg ''3'') (sel bg ''3'') (sel bg ''3'')),
            (''500'', states4 (sel bg ''0'') (sel bg ''1'') (sel bg ''1'') (sel bg ''1'')),
            (''on300'', states4 (sel bg ''0'') (sel bg ''1'') (sel bg ''1'') (sel bg ''1'')),
            (''on500'', states4 (sel bg ''1'') (sel bg ''3'') (sel bg ''3'') (sel bg ''3'')),
            (''ok'', states4 (sel cs ''green'') (sel cs ''green'') (sel cs ''green'') (sel cs ''green'')),
            (''error'', states4 (sel cs ''red'') (sel cs ''red'') (sel cs ''red'') (sel cs ''red'')),
            (''warning'',
               states4 (sel cs ''yellow'') (sel cs ''yellow'') (sel cs ''yellow'') (sel cs ''yellow'')),
            (''info'', states4 (sel cs ''blue'') (sel cs ''blue'') (sel cs ''blue'') (sel cs ''blue''))];
         borderColor = JObj
           [(''primary'', sel bg ''0''),
            (''secondary'', sel bg ''1''),
            (''muted'', sel bg ''3''),
            (''focused'', sel bg ''3''),
            (''active'', sel bg ''3''),
            (''ok'', sel cs ''green''),
            (''error'', sel cs ''red''),
            (''warning'', sel cs ''yellow''),
            (''info'', sel cs ''blue'')];
         textColor = JObj
           [(''primary'', sel fg ''1''),
            (''secondary'', sel fg ''2''),
            (''muted'', sel fg ''2''),
            (''placeholder'', sel fg ''3''),
            (''active'', sel fg ''0''),
            (''feature'', sel cs ''blue''),
            (''ok'', sel cs ''green''),
            (''error'', sel cs ''red''),
            (''warning'', sel cs ''yellow''),
            (''info'', sel cs ''blue'')];
         player = JObj
           [(''1'', JObj (buildPlayer (sel cs ''blue''))),
            (''2'', JObj (buildPlayer (sel cs ''green''))),
            (''3'', JObj (buildPlayer (sel cs ''magenta''))),
            (''4'', JObj (buildPlayer (sel cs ''orange''))),
            (''5'', JObj (buildPlayer (sel cs ''violet''))),
            (''6'', JObj (buildPlayer (sel cs ''cyan''))),
            (''7'', JObj (buildPlayer (sel cs ''red''))),
            (''8'', JObj (buildPlayer (sel cs ''yellow'')))];
         editor = JObj
           [(''background'', sel (sel backgroundColor ''500'') ''base''),
            (''indent_guide'', sel borderColor ''muted''),
            (''indent_guide_active'', sel borderColor ''secondary''),
            (''line'', JObj
               [(''active'', withOpacity (sel fg ''0'') 0.07),
                (''highlighted'', withOpacity (sel fg ''0'') 0.12),
                (''inserted'', sel (sel backgroundColor ''ok'') ''active''),
                (''deleted'', sel (sel backgroundColor ''error'') ''active''),
                (''modified'', sel (sel backgroundColor ''info'') ''active'')]),
            (''highlight'', JObj
               [(''selection'', sel (sel player ''1'') ''selectionColor''),
                (''occurrence'', withOpacity (sel bg ''0'') 0.12),
                (''activeOccurrence'', withOpacity (sel bg ''0'') 0.16),
                (''matchingBracket'', sel (sel backgroundColor ''500'') ''active''),
                (''match'', withOpacity (sel cs ''violet'') 0.5),
                (''activeMatch'', withOpacity (sel cs ''violet'') 0.7),
                (''related'', sel (sel backgroundColor ''500'') ''focused'')]),
            (''gutter'', JObj
               [(''primary'', sel textColor ''placeholder''),
                (''active'', sel textColor ''active'')])];
         normal = fontWeights ''normal'';
         bold = fontWeights ''bold'';
         syntax = JObj
           [(''primary'', syntaxStyle (sel fg ''0'') normal),
            (''comment'', syntaxStyle (sel fg ''2'') normal),
            (''punctuation'', syntaxStyle (sel fg ''2'') normal),
            (''constant'', syntaxStyle (sel fg ''3'') normal),
            (''keyword'', syntaxStyle (sel cs ''blue'') normal),
            (''function'', syntaxStyle (sel cs ''yellow'') normal),
            (''type'', syntaxStyle (sel cs ''cyan'') normal),
            (''variant'', syntaxStyle (sel cs ''blue'') normal),
            (''property'', syntaxStyle (sel cs ''blue'') normal),
            (''enum'', syntaxStyle (sel cs ''orange'') normal),
            (''operator'', syntaxStyle (sel cs ''orange'') normal),
            (''string'', syntaxStyle (sel cs ''orange'') normal),
            (''number'', syntaxStyle (sel cs ''green'') normal),
            (''boolean'', syntaxStyle (sel cs ''green'') normal),
            (''predictive'', syntaxStyle (sel textColor ''muted'') normal),
            (''title'', syntaxStyle (sel cs ''yellow'') bold),
            (''emphasis'', syntaxStyle (sel textColor ''feature'') normal),
            (''emphasis.strong'', syntaxStyle (sel textColor ''feature'') bold),
            (''linkUri'', JObj
               [(''color'', sel cs ''green''), (''weight'', normal), (''underline'', JBool True)]),
            (''linkText'', JObj
               [(''color'', sel cs ''orange''), (''weight'', normal), (''italic'', JBool True)])];
         shadowAlpha = JObj [(''value'', JNum 0.32), (''type'', JStr ''number'')]
     in JObj
          [(''name'', JStr name),
           (''backgroundColor'', backgroundColor),
           (''borderColor'', borderColor),
           (''textColor'', textColor),
           (''iconColor'', textColor),
           (''editor'', editor),
           (''syntax'', syntax),
           (''player'', player),
           (''shadowAlpha'', shadowAlpha)])"


section \<open>The ramps of the ramp-based themes\<close>










section \<open>The style components (styleTree/components)\<close>

text \<open>
  \<open>core\<close>, the token table of \<open>./core\<close> (\<open>core.fontFamily\<close>, \<open>core.fontSize\<close>), is not
  among the sources and is a parameter. An omitted optional argument is \<open>JUndefined\<close>.

  \<^verbatim>\<open>
  export function text(theme, fontFamily, color, properties?) {
    const sizeKey = properties.size || fontFamily === "sans" ? "sm" : "md";
    const size = core.fontSize[sizeKey].value;
    return {
      family: core.fontFamily[fontFamily],
      color: theme.textColor[color].value,
      ...properties,
      size,
    };
  }
  \<close>
  \<open>? :\<close> binds weaker than \<open>||\<close>: the condition is
  \<open>properties.size || fontFamily === "sans"\<close>. (The function is \<open>text'\<close> here,
  \<open>text\<close> being a keyword of this file's language.)
\<close>

definition text' :: "jsval \<Rightarrow> jsval \<Rightarrow> string \<Rightarrow> string \<Rightarrow> jsval \<Rightarrow> error + jsval" where
  "text' core theme fontFamily color properties =
     bindE (getProp properties ''size'') (\<lambda>requested.
       let sizeKey = (if truthy requested \<or> fontFamily = ''sans'' then ''sm'' else ''md'') in
       bindE (getPath core [''fontSize'', sizeKey, ''value'']) (\<lambda>size.
         obj [Prop ''family'' (getPath core [''fontFamily'', fontFamily]),
              Prop ''color'' (getPath theme [''textColor'', color, ''value'']),
              Spread (Inr properties),
              Prop ''size'' (Inr size)]))"

text \<open>
  \<^verbatim>\<open>
  export function border(theme, color) {
    return { color: theme.borderColor[color].value, width: 1 };
  }
  \<close>
  A third argument, which some callers pass, is ignored.
\<close>

definition border :: "jsval \<Rightarrow> string \<Rightarrow> error + jsval" where
  "border theme color =
     obj [Prop ''color'' (getPath theme [''borderColor'', color, ''value'']),
          Prop ''width'' (num 1)]"

datatype playerNumber = P1 | P2 | P3 | P4 | P5 | P6 | P7 | P8

fun playerKey :: "playerNumber \<Rightarrow> string" where
  "playerKey P1 = ''1''"
| "playerKey P2 = ''2''"
| "playerKey P3 = ''3''"
| "playerKey P4 = ''4''"
| "playerKey P5 = ''5''"
| "playerKey P6 = ''6''"
| "playerKey P7 = ''7''"
| "playerKey P8 = ''8''"

text \<open>
  \<^verbatim>\<open>
  export function player(theme, playerNumber: 1 | 2 | 3 | 4 | 5 | 6 | 7 | 8): Player {
    return {
      selection: {
        cursor: theme.player[playerNumber].cursorColor.value,
        selection: theme.player[playerNumber].selectionColor.value,
      },
    };
  }
  \<close>
\<close>

definition player :: "jsval \<Rightarrow> playerNumber \<Rightarrow> error + jsval" where
  "player theme playerNumber =
     obj [Prop ''selection''
            (obj [Prop ''cursor''
                    (getPath theme [''player'', playerKey playerNumber, ''cursorColor'', ''value'']),
                  Prop ''selection''
                    (getPath theme [''player'', playerKey playerNumber, ''selectionColor'', ''value''])])]"

text \<open>
  \<^verbatim>\<open>
  export function backgroundColor(theme, name, state?): Color {
    return theme.backgroundColor[name][state || "base"].value;
  }
  \<close>
  The optional \<open>state\<close> is a key of \<open>BackgroundColor\<close>, a string: \<open>None\<close> when
  omitted. The empty string is falsy, as \<open>undefined\<close> is.
\<close>

definition backgroundColor :: "jsval \<Rightarrow> string \<Rightarrow> string option \<Rightarrow> error + jsval" where
  "backgroundColor theme name state =
     getPath theme
       [''backgroundColor'', name,
        (case state of None \<Rightarrow> ''base'' | Some s \<Rightarrow> if s = [] then ''base'' else s),
        ''value'']"


section \<open>The editor style (styleTree/editor)\<close>

text \<open>
  \<open>iconColor\<close>, which the editor imports from \<open>./components\<close>, is not among the
  sources and is a parameter.
\<close>

definition diagnostic :: "jsval \<Rightarrow> jsval \<Rightarrow> string \<Rightarrow> error + jsval" where
  "diagnostic core theme color =
     obj [Prop ''textScaleFactor'' (num 0.857),
          Prop ''header'' (obj [Prop ''border'' (border theme ''primary'')]),
          Prop ''message''
            (obj [Prop ''text''
                    (text' core theme ''sans'' color (JObj [(''size'', JStr ''sm'')])),
                  Prop ''highlightText''
                    (text' core theme ''sans'' color
                       (JObj [(''size'', JStr ''sm''), (''weight'', JStr ''bold'')]))])]"

definition playerSelection :: "jsval \<Rightarrow> playerNumber \<Rightarrow> error + jsval" where
  "playerSelection theme n = bindE (player theme n) (\<lambda>p. getProp p ''selection'')"

definition autocompleteItem :: "init list" where
  "autocompleteItem =
     [Prop ''cornerRadius'' (num 6),
      Prop ''padding''
        (obj [Prop ''bottom'' (num 2), Prop ''left'' (num 6),
              Prop ''right'' (num 6), Prop ''top'' (num 2)])]"

definition editor :: "jsval \<Rightarrow> (jsval \<Rightarrow> string \<Rightarrow> error + jsval) \<Rightarrow> jsval \<Rightarrow> error + jsval" where
  "editor core iconColor theme =
     obj [Prop ''textColor'' (getPath theme [''textColor'', ''secondary'', ''value'']),
          Prop ''background'' (backgroundColor theme ''300'' None),
          Prop ''activeLineBackground'' (getPath theme [''editor'', ''line'', ''active'', ''value'']),
          Prop ''codeActionsIndicator'' (iconColor theme ''secondary''),
          Prop ''diffBackgroundDeleted'' (backgroundColor theme ''error'' None),
          Prop ''diffBackgroundInserted'' (backgroundColor theme ''ok'' None),
          Prop ''documentHighlightReadBackground''
            (getPath theme [''editor'', ''highlight'', ''occurrence'', ''value'']),
          Prop ''documentHighlightWriteBackground''
            (getPath theme [''editor'', ''highlight'', ''occurrence'', ''value'']),
          Prop ''errorColor'' (getPath theme [''textColor'', ''error'']),
          Prop ''gutterBackground'' (backgroundColor theme ''300'' None),
          Prop ''gutterPaddingFactor'' (num 2.5),
          Prop ''highlightedLineBackground''
            (getPath theme [''editor'', ''line'', ''highlighted'', ''value'']),
          Prop ''lineNumber'' (getPath theme [''editor'', ''gutter'', ''primary'', ''value'']),
          Prop ''lineNumberActive'' (getPath theme [''editor'', ''gutter'', ''active'']),
          Prop ''renameFade'' (num 0.6),
          Prop ''unnecessaryCodeFade'' (num 0.5),
          Prop ''selection'' (playerSelection theme P1),
          Prop ''guestSelections''
            (arrLit [playerSelection theme P2,
                     playerSelection theme P3,
                     playerSelection theme P4,
                     playerSelection theme P5,
                     playerSelection theme P6,
                     playerSelection theme P7,
                     playerSelection theme P8] []),
          Prop ''autocomplete''
            (obj [Prop ''background'' (backgroundColor theme ''100'' None),
                  Prop ''cornerRadius'' (num 6),
                  Prop ''padding'' (num 6),
                  Prop ''border'' (border theme ''secondary''),
                  Prop ''item'' (obj autocompleteItem),
                  Prop ''hoveredItem''
                    (obj [Spread (obj autocompleteItem),
                          Prop ''background'' (backgroundColor theme ''100'' (Some ''hovered''))]),
                  Prop ''margin'' (obj [Prop ''left'' (num (- 14))]),
                  Prop ''matchHighlight''
                    (obj [Prop ''color'' (getPath theme [''syntax'', ''keyword'', ''color'', ''value'']),
                          Prop ''weight''
                            (getPath theme [''syntax'', ''keyword'', ''weight'', ''value''])]),
                  Prop ''selectedItem''
                    (obj [Spread (obj autocompleteItem),
                          Prop ''background'' (backgroundColor theme ''100'' (Some ''active''))])]),
          Prop ''diagnosticHeader''
            (obj [Prop ''background'' (getPath theme [''editor'', ''background'', ''value'']),
                  Prop ''iconWidthFactor'' (num 1.5),
                  Prop ''textScaleFactor'' (num 0.857),
                  Prop ''border'' (border theme ''secondary''),
                  Prop ''code''
                    (obj [Spread (text' core theme ''mono'' ''muted'' (JObj [(''size'', JStr ''sm'')])),
                          Prop ''margin'' (obj [Prop ''left'' (num 10)])]),
                  Prop ''message''
                    (obj [Prop ''highlightText''
                            (text' core theme ''sans'' ''primary''
                               (JObj [(''size'', JStr ''sm''), (''weight'', JStr ''bold'')])),
                          Prop ''text''
                            (text' core theme ''sans'' ''secondary''
                               (JObj [(''size'', JStr ''sm'')]))])]),
          Prop ''diagnosticPathHeader''
            (obj [Prop ''background'' (getPath theme [''editor'', ''line'', ''active'']),
                  Prop ''textScaleFactor'' (num 0.857),
                  Prop ''filename''
                    (text' core theme ''mono'' ''primary'' (JObj [(''size'', JStr ''sm'')])),
                  Prop ''path''
                    (obj [Spread (text' core theme ''mono'' ''muted'' (JObj [(''size'', JStr ''sm'')])),
                          Prop ''margin'' (obj [Prop ''left'' (num 12)])])]),
          Prop ''errorDiagnostic'' (diagnostic core theme ''error''),
          Prop ''warningDiagnostic'' (diagnostic core theme ''warning''),
          Prop ''informationDiagnostic'' (diagnostic core theme ''info''),
          Prop ''hintDiagnostic'' (diagnostic core theme ''info''),
          Prop ''invalidErrorDiagnostic'' (diagnostic core theme ''muted''),
          Prop ''invalidHintDiagnostic'' (diagnostic core theme ''muted''),
          Prop ''invalidInformationDiagnostic'' (diagnostic core theme ''muted''),
          Prop ''invalidWarningDiagnostic'' (diagnostic core theme ''muted'')]"

text \<open>
  An earlier revision of the editor calls the text helper with three arguments:
  \<^verbatim>\<open>
      code: {
        ...text(theme, "mono", "muted"),
        size: 14,
        margin: { left: 10 },
      },
  \<close>
\<close>

definition diagnosticHeader_code :: "jsval \<Rightarrow> jsval \<Rightarrow> error + jsval" where
  "diagnosticHeader_code core theme =
     obj [Spread (text' core theme ''mono'' ''muted'' JUndefined),
          Prop ''size'' (num 14),
          Prop ''margin'' (obj [Prop ''left'' (num 10)])]"


section \<open>Inheritance resolution\<close>

text \<open>
  The style tree of \<open>styleTree/app\<close> carries \<open>extends: "$a.b.c"\<close> properties; the
  pass that resolves them is not among the sources, which only emit the references. It
  is modelled here from its specification, on the same values: a node is an object, an
  \<open>extends\<close> reference is its property \<open>extends\<close> when that is a string.
\<close>

text \<open>
  Modelled from the spec: the path syntax of an \<open>extends\<close> reference (the resolver is
  missing). A reference is \<open>$\<close> followed by property names separated by dots.
\<close>

fun splitDots :: "string \<Rightarrow> string \<Rightarrow> string list" where
  "splitDots [] cur = [rev cur]"
| "splitDots (c # cs) cur =
     (if c = CHR ''.'' then rev cur # splitDots cs [] else splitDots cs (c # cur))"

definition parsePath :: "string \<Rightarrow> string list option" where
  "parsePath s =
     (case s of
        [] \<Rightarrow> None
      | c # rest \<Rightarrow> if c = CHR ''$'' then Some (splitDots rest []) else None)"

text \<open>
  Modelled from the spec: the lookup of a referenced path in the root tree (the resolver
  is missing). The path must lead to a node; anything else is unresolvable.
\<close>

fun lookupPath :: "jsval \<Rightarrow> string list \<Rightarrow> jsval option" where
  "lookupPath v [] = Some v"
| "lookupPath (JObj kvs) (k # ks) =
     (case map_of kvs k of None \<Rightarrow> None | Some w \<Rightarrow> lookupPath w ks)"
| "lookupPath v (k # ks) = None"

definition lookupRef :: "jsval \<Rightarrow> string \<Rightarrow> jsval option" where
  "lookupRef tree path =
     (case parsePath path of
        None \<Rightarrow> None
      | Some ks \<Rightarrow>
          (case lookupPath tree ks of
             Some (JObj kvs) \<Rightarrow> Some (JObj kvs)
           | _ \<Rightarrow> None))"

text \<open>
  Modelled from the spec: the overlay of a node's own properties on the properties
  copied from the node it extends (the resolver is missing): "current values win on key
  collision; nested objects merge key-by-key, not wholesale replacement". Inherited
  keys keep their place, new keys follow.
\<close>

fun overlay :: "jsval \<Rightarrow> jsval \<Rightarrow> jsval"
  and overlayProps :: "(string \<times> jsval) list \<Rightarrow> (string \<times> jsval) list \<Rightarrow> (string \<times> jsval) list" where
  "overlay (JObj bs) (JObj os) = JObj (overlayProps bs os)"
| "overlay b v = v"
| "overlayProps bs [] = bs"
| "overlayProps bs ((k, v) # os) =
     overlayProps (oset k (case map_of bs k of None \<Rightarrow> v | Some b \<Rightarrow> overlay b v) bs) os"

text \<open>
  Modelled from the spec: a node's own declared properties, the reference itself left
  out (the resolver is missing).
\<close>

definition ownProps :: "(string \<times> jsval) list \<Rightarrow> (string \<times> jsval) list" where
  "ownProps kvs = filter (\<lambda>p. fst p \<noteq> ''extends'') kvs"

text \<open>
  Modelled from the spec: the resolver, which is missing. A node with an \<open>extends\<close>
  reference looks the path up in the root tree (DanglingExtendsError names a path that
  does not resolve), takes the resolved properties of that node and overlays its own
  resolved properties; resolution is depth-first. \<open>visiting\<close> holds the references
  being followed: meeting one of them again is a cycle, CyclicExtendsError. \<open>fuel\<close>
  bounds how many references are followed inside one another, so that the recursion is
  structural; \<open>DepthExceeded\<close> is not an error of the program but the model's report
  that the bound was too small, which for \<open>resolve\<close> never happens (proved below).
\<close>

fun resolveNode :: "jsval \<Rightarrow> string list \<Rightarrow> nat \<Rightarrow> jsval \<Rightarrow> error + jsval"
  and resolveProps ::
    "jsval \<Rightarrow> string list \<Rightarrow> nat \<Rightarrow> (string \<times> jsval) list \<Rightarrow> error + (string \<times> jsval) list" where
  "resolveNode tree visiting fuel (JObj kvs) =
     (case map_of kvs ''extends'' of
        Some (JStr path) \<Rightarrow>
          if path \<in> set visiting then Inl CyclicExtendsError
          else
            (case lookupRef tree path of
               None \<Rightarrow> Inl (DanglingExtendsError path)
             | Some target \<Rightarrow>
                 (case fuel of
                    0 \<Rightarrow> Inl DepthExceeded
                  | Suc f \<Rightarrow>
                      bindE (resolveNode tree (path # visiting) f target) (\<lambda>base.
                      bindE (resolveProps tree visiting fuel kvs) (\<lambda>own.
                        Inr (overlay base (JObj (ownProps own)))))))
      | _ \<Rightarrow> bindE (resolveProps tree visiting fuel kvs) (\<lambda>ps. Inr (JObj ps)))"
| "resolveNode tree visiting fuel v = Inr v"
| "resolveProps tree visiting fuel [] = Inr []"
| "resolveProps tree visiting fuel ((k, v) # kvs) =
     bindE (resolveNode tree visiting fuel v) (\<lambda>v'.
     bindE (resolveProps tree visiting fuel kvs) (\<lambda>rest. Inr ((k, v') # rest)))"

text \<open>
  Modelled from the spec: the references of a tree (the resolver is missing).
  References followed inside one another are distinct references of the tree, so their
  number is fuel enough.
\<close>

fun refsOf :: "jsval \<Rightarrow> string list"
  and refsOfProps :: "(string \<times> jsval) list \<Rightarrow> string list" where
  "refsOf (JObj kvs) =
     (case map_of kvs ''extends'' of Some (JStr path) \<Rightarrow> [path] | _ \<Rightarrow> []) @ refsOfProps kvs"
| "refsOf v = []"
| "refsOfProps [] = []"
| "refsOfProps ((k, v) # kvs) = refsOf v @ refsOfProps kvs"

text \<open>
  Modelled from the spec: what a self-referential or mutually-referential chain of
  references is (the resolver is missing). The node a node extends, a chain of nodes
  each extending the next, and a cycle: a non-empty chain from a node back to itself
  (\<open>[n]\<close> for a node that extends itself, \<open>[m, n]\<close> for \<open>n\<close> extends \<open>m\<close>
  extends \<open>n\<close>). A resolution fails on a cycle or on a reference of the tree that
  does not resolve; the fuel is enough when it covers the references of the tree that
  are not being followed yet.
\<close>

definition extendsTarget :: "jsval \<Rightarrow> jsval \<Rightarrow> jsval option" where
  "extendsTarget tree node =
     (case node of
        JObj kvs \<Rightarrow>
          (case map_of kvs ''extends'' of
             Some (JStr path) \<Rightarrow> lookupRef tree path
           | _ \<Rightarrow> None)
      | _ \<Rightarrow> None)"

fun extendsChain :: "jsval \<Rightarrow> jsval \<Rightarrow> jsval list \<Rightarrow> bool" where
  "extendsChain tree n [] = True"
| "extendsChain tree n (m # ms) = (extendsTarget tree n = Some m \<and> extendsChain tree m ms)"

definition extendsCycle :: "jsval \<Rightarrow> jsval \<Rightarrow> jsval list \<Rightarrow> bool" where
  "extendsCycle tree n ns = (ns \<noteq> [] \<and> extendsChain tree n ns \<and> last ns = n)"

definition extendsFailure :: "jsval \<Rightarrow> error \<Rightarrow> bool" where
  "extendsFailure tree e =
     (e = CyclicExtendsError \<or>
      (\<exists>p. e = DanglingExtendsError p \<and> p \<in> set (refsOf tree) \<and> lookupRef tree p = None))"

definition enoughFuel :: "jsval \<Rightarrow> string list \<Rightarrow> nat \<Rightarrow> bool" where
  "enoughFuel tree visiting fuel =
     (distinct visiting \<and> set visiting \<subseteq> set (refsOf tree) \<and>
      card (set (refsOf tree)) \<le> fuel + length visiting)"


text \<open>
  Modelled from the spec: the rejection of cycles, "one topological resolution pass
  rejecting cycles before any output is emitted" (the resolver is missing). The nodes
  of a tree are its objects, at any depth. A chain of references that can be followed
  from a node for more steps than the tree has references has met one of them twice: it
  runs into a cycle, and the tree is \<open>cyclic\<close>.
\<close>

fun nodesOf :: "jsval \<Rightarrow> jsval list"
  and nodesOfProps :: "(string \<times> jsval) list \<Rightarrow> jsval list" where
  "nodesOf (JObj kvs) = JObj kvs # nodesOfProps kvs"
| "nodesOf v = []"
| "nodesOfProps [] = []"
| "nodesOfProps ((k, v) # kvs) = nodesOf v @ nodesOfProps kvs"

fun extendsAfter :: "jsval \<Rightarrow> nat \<Rightarrow> jsval \<Rightarrow> jsval option" where
  "extendsAfter tree 0 n = Some n"
| "extendsAfter tree (Suc k) n =
     (case extendsTarget tree n of None \<Rightarrow> None | Some m \<Rightarrow> extendsAfter tree k m)"

definition cyclic :: "jsval \<Rightarrow> bool" where
  "cyclic tree =
     list_ex (\<lambda>n. extendsAfter tree (Suc (length (refsOf tree))) n \<noteq> None) (nodesOf tree)"

text \<open>
  Modelled from the spec: the resolver's entry point (the resolver is missing). A tree
  with a cycle of references is rejected as a whole, with CyclicExtendsError, whatever
  else is wrong with it; any other tree is resolved depth-first from its root.
\<close>

definition resolve :: "jsval \<Rightarrow> error + jsval" where
  "resolve tree =
     (if cyclic tree then Inl CyclicExtendsError
      else resolveNode tree [] (length (refsOf tree)) tree)"


section \<open>Ramp sampling\<close>

text \<open>
  Ramps are built and sampled by \<open>colorRamp\<close> of \<open>./common/ramps\<close> and by the
  \<open>chroma-js\<close> library, neither among the sources. The builder and the sampling are
  modelled from their specification, over exact reals.
\<close>

text \<open>
  Modelled from the spec: a colour of a ramp, by its three coordinates in the
  perceptual space the interpolation works in (the colour library is missing).
\<close>

type_synonym labColor = "real \<times> real \<times> real"

record ramp =
  rampSeeds :: "labColor list"
  rampBreaks :: "real list"

text \<open>
  Modelled from the spec: \<open>buildRamp\<close>, which is missing. "Requires at least 2 seed
  colors (fails with InvalidRampError otherwise)"; the optional domain is "a strictly
  increasing sequence of breakpoints in [0,1] the same length as the seed sequence", and
  one that is not fails with InvalidRampError. Without a domain the seeds are spaced
  evenly over [0,1].
\<close>

definition buildRamp :: "labColor list \<Rightarrow> real list option \<Rightarrow> error + ramp" where
  "buildRamp seedColors domain =
     (if length seedColors < 2 then Inl InvalidRampError
      else
        (case domain of
           None \<Rightarrow>
             Inr \<lparr>rampSeeds = seedColors,
                  rampBreaks = map (\<lambda>i. real i / real (length seedColors - 1)) [0..<length seedColors]\<rparr>
         | Some d \<Rightarrow>
             if length d = length seedColors \<and> sorted_wrt (<) d \<and> list_all (\<lambda>x. 0 \<le> x \<and> x \<le> 1) d
             then Inr \<lparr>rampSeeds = seedColors, rampBreaks = d\<rparr>
             else Inl InvalidRampError))"

text \<open>
  Modelled from the spec: the interpolation between two seed colours, which is missing,
  as the straight line between them in the perceptual coordinates.
\<close>

definition interpolate :: "labColor \<Rightarrow> labColor \<Rightarrow> real \<Rightarrow> labColor" where
  "interpolate a b t =
     (case a of (a1, a2, a3) \<Rightarrow>
      case b of (b1, b2, b3) \<Rightarrow>
        (a1 + t * (b1 - a1), a2 + t * (b2 - a2), a3 + t * (b3 - a3)))"

text \<open>
  Modelled from the spec: \<open>Ramp.sample\<close>, which is missing. It clamps the position to
  [0,1], finds the two breakpoints that bracket it and interpolates between their seed
  colours.
\<close>

fun sampleAt :: "labColor list \<Rightarrow> real list \<Rightarrow> real \<Rightarrow> labColor" where
  "sampleAt (c0 # c1 # cs) (b0 # b1 # bs) p =
     (if p \<le> b0 then c0
      else if p \<le> b1 then interpolate c0 c1 ((p - b0) / (b1 - b0))
      else sampleAt (c1 # cs) (b1 # bs) p)"
| "sampleAt (c # cs) bs p = c"
| "sampleAt [] bs p = (0, 0, 0)"

definition sample :: "ramp \<Rightarrow> real \<Rightarrow> labColor" where
  "sample R position = sampleAt (rampSeeds R) (rampBreaks R) (max 0 (min 1 position))"


section \<open>Concrete token tables\<close>

text \<open>
  Stand-ins for the parameters (the token tables and helpers that are not among the
  sources), on which the functions above can be evaluated: a colour token carries its hex
  string as \<open>value\<close>, as the number token \<open>shadowAlpha\<close> of \<open>cave\<close> carries its number.
\<close>

definition sampleCore :: jsval where
  "sampleCore = JObj
     [(''fontFamily'', JObj [(''sans'', JStr ''Zed Sans''), (''mono'', JStr ''Zed Mono'')]),
      (''fontSize'', JObj
         [(''xs'', JObj [(''value'', JNum 10)]),
          (''sm'', JObj [(''value'', JNum 12)]),
          (''md'', JObj [(''value'', JNum 14)]),
          (''lg'', JObj [(''value'', JNum 16)])])]"

definition sampleColor :: "string \<Rightarrow> jsval" where
  "sampleColor hex = JObj [(''value'', JStr hex), (''type'', JStr ''color'')]"

definition sampleFontWeights :: "string \<Rightarrow> jsval" where
  "sampleFontWeights k = JObj [(''value'', JStr k), (''type'', JStr ''fontWeight'')]"

definition sampleWithOpacity :: "jsval \<Rightarrow> real \<Rightarrow> jsval" where
  "sampleWithOpacity c a =
     JObj [(''value'', JArr [sel c ''value'', JNum a]), (''type'', JStr ''color'')]"

definition sampleBuildPlayer :: "jsval \<Rightarrow> (string \<times> jsval) list" where
  "sampleBuildPlayer c =
     [(''cursorColor'', c), (''selectionColor'', sampleWithOpacity c 0.1)]"

definition sampleIconColor :: "jsval \<Rightarrow> string \<Rightarrow> error + jsval" where
  "sampleIconColor theme name = getPath theme [''iconColor'', name, ''value'']"

definition sampleCave :: "bool \<Rightarrow> jsval" where
  "sampleCave darkTheme =
     cave sampleColor sampleFontWeights sampleWithOpacity sampleBuildPlayer darkTheme"

text \<open>
  Two style trees: one with a mutual reference, and the \<open>project\<close>,
  \<open>sharedProject\<close> and \<open>unsharedProject\<close> nodes of the contacts panel of
  \<open>styleTree/app\<close>, under a root that also has the \<open>text.secondary\<close> node they refer to.
\<close>

definition mutualTree :: jsval where
  "mutualTree = JObj
     [(''x'', JObj [(''extends'', JStr ''$y''), (''a'', JNum 1)]),
      (''y'', JObj [(''extends'', JStr ''$x''), (''b'', JNum 2)])]"




text \<open>
  Three more style trees: a node that extends itself; the mutual reference beside a node
  whose reference leads nowhere, which the resolver meets first; and a chain of three
  references that ends.
\<close>

definition selfTree :: jsval where
  "selfTree = JObj [(''s'', JObj [(''extends'', JStr ''$s''), (''a'', JNum 1)])]"


definition chainTree :: jsval where
  "chainTree = JObj
     [(''a'', JObj [(''extends'', JStr ''$b''), (''p'', JNum 1)]),
      (''b'', JObj [(''extends'', JStr ''$c''), (''q'', JNum 2)]),
      (''c'', JObj [(''extends'', JStr ''$d''), (''p'', JNum 3)]),
      (''d'', JObj [(''r'', JNum 4)])]"


section \<open>Facts about object literals\<close>

lemma bindE_Inr: "bindE m f = Inr r \<Longrightarrow> \<exists>v. m = Inr v \<and> f v = Inr r"
  by (cases m) (simp_all add: bindE_def)

lemma map_of_oset_same: "map_of (oset k v kvs) k = Some v"
  by (induction kvs) auto

lemma map_of_oset_other: "k' \<noteq> k \<Longrightarrow> map_of (oset k v kvs) k' = map_of kvs k'"
  by (induction kvs) auto

lemma objLit_is_object: "objLit ins acc = Inr r \<Longrightarrow> \<exists>kvs. r = JObj kvs"
  by (induction ins acc rule: objLit.induct) (auto split: sum.splits)

lemma objLit_final:
  "objLit ins acc = Inr (JObj kvs) \<Longrightarrow> finalInit k ins cur = Some e \<Longrightarrow>
   (\<forall>e'. cur = Some e' \<longrightarrow> (\<exists>v. e' = Inr v \<and> map_of acc k = Some v)) \<Longrightarrow>
   \<exists>v. e = Inr v \<and> map_of kvs k = Some v"
proof (induction ins acc arbitrary: cur rule: objLit.induct)
  case (1 acc)
  then show ?case by simp
next
  case (2 k' e' ins acc)
  from "2.prems"(1) obtain v' where e': "e' = Inr v'"
    and rest: "objLit ins (oset k' v' acc) = Inr (JObj kvs)"
    by (cases e') simp_all
  show ?case
  proof (rule "2.IH"[OF e' rest])
    show "finalInit k ins (if k' = k then Some e' else cur) = Some e"
      using "2.prems"(2) by simp
    show "\<forall>e''. (if k' = k then Some e' else cur) = Some e'' \<longrightarrow>
            (\<exists>v. e'' = Inr v \<and> map_of (oset k' v' acc) k = Some v)"
      using "2.prems"(3) e' by (auto simp: map_of_oset_same map_of_oset_other)
  qed
next
  case (3 e' ins acc)
  from "3.prems"(1) obtain v' where e': "e' = Inr v'"
    and rest: "objLit ins (spreadInto v' acc) = Inr (JObj kvs)"
    by (cases e') simp_all
  show ?case
    by (rule "3.IH"[OF e' rest, of None]) (use "3.prems"(2) in simp_all)
qed

lemma obj_final:
  assumes "obj ins = Inr r" and "finalInit k ins None = Some e"
  shows "\<exists>v. e = Inr v \<and> getProp r k = Inr v"
proof -
  from assms(1) obtain kvs where r: "r = JObj kvs"
    unfolding obj_def by (blast dest: objLit_is_object)
  from assms r have "\<exists>v. e = Inr v \<and> map_of kvs k = Some v"
    unfolding obj_def by (intro objLit_final[where cur = None and acc = "[]"]) simp_all
  then show ?thesis
    by (auto simp: r getProp_def)
qed


lemma arrLit_elems:
  "arrLit es acc = Inr v \<Longrightarrow> \<exists>vs. v = JArr (rev acc @ vs) \<and> map Inr vs = es"
proof (induction es arbitrary: acc)
  case Nil
  then have "v = JArr (rev acc @ []) \<and> map Inr [] = ([] :: (error + jsval) list)" by simp
  then show ?case by (rule exI)
next
  case (Cons e es)
  from Cons.prems obtain x where e: "e = Inr x" and rest: "arrLit es (x # acc) = Inr v"
    by (cases e) simp_all
  from Cons.IH[OF rest] obtain vs where vs: "v = JArr (rev (x # acc) @ vs)" "map Inr vs = es"
    by (elim exE conjE)
  from vs e have "v = JArr (rev acc @ (x # vs)) \<and> map Inr (x # vs) = e # es" by simp
  then show ?case by (rule exI)
qed


section \<open>The text style helper\<close>

lemma text_size:
  assumes "text' core theme fontFamily color properties = Inr r"
  obtains requested size where
    "getProp properties ''size'' = Inr requested"
    "getPath core [''fontSize'',
        if truthy requested \<or> fontFamily = ''sans'' then ''sm'' else ''md'', ''value''] = Inr size"
    "getProp r ''size'' = Inr size"
proof -
  from assms obtain requested where req: "getProp properties ''size'' = Inr requested"
    and rest: "(let sizeKey = (if truthy requested \<or> fontFamily = ''sans'' then ''sm'' else ''md'') in
       bindE (getPath core [''fontSize'', sizeKey, ''value'']) (\<lambda>size.
         obj [Prop ''family'' (getPath core [''fontFamily'', fontFamily]),
              Prop ''color'' (getPath theme [''textColor'', color, ''value'']),
              Spread (Inr properties),
              Prop ''size'' (Inr size)])) = Inr r"
    unfolding text'_def by (blast dest: bindE_Inr)
  from rest obtain size where
    size: "getPath core [''fontSize'',
        if truthy requested \<or> fontFamily = ''sans'' then ''sm'' else ''md'', ''value''] = Inr size"
    and lit: "obj [Prop ''family'' (getPath core [''fontFamily'', fontFamily]),
              Prop ''color'' (getPath theme [''textColor'', color, ''value'']),
              Spread (Inr properties),
              Prop ''size'' (Inr size)] = Inr r"
    unfolding Let_def by (blast dest: bindE_Inr)
  have "\<exists>v. Inr size = (Inr v :: error + jsval) \<and> getProp r ''size'' = Inr v"
    by (rule obj_final[OF lit]) simp
  then have "getProp r ''size'' = Inr size" by simp
  with req size show thesis by (rule that)
qed


text \<open>
  C8. When \<open>properties.size\<close> is truthy, the \<open>size\<close> of the style that \<open>text\<close> returns
  is the value of the \<open>sm\<close> font-size token, whichever size was asked for: the size key
  is \<open>(properties.size || fontFamily === "sans") ? "sm" : "md"\<close>, so \<open>md\<close> is chosen
  only when no size is asked for and the font family is not \<open>sans\<close>.
\<close>

theorem text_size_choice:
  assumes "text' core theme fontFamily color properties = Inr r"
    and "getProp properties ''size'' = Inr requested"
  shows "getProp r ''size'' =
           getPath core [''fontSize'',
             if truthy requested \<or> fontFamily = ''sans'' then ''sm'' else ''md'', ''value''] \<and>
         (truthy requested \<longrightarrow> getProp r ''size'' = getPath core [''fontSize'', ''sm'', ''value''])"
proof -
  from assms(1) obtain requested' size where
    "getProp properties ''size'' = Inr requested'"
    "getPath core [''fontSize'',
        if truthy requested' \<or> fontFamily = ''sans'' then ''sm'' else ''md'', ''value''] = Inr size"
    "getProp r ''size'' = Inr size"
    by (rule text_size)
  with assms(2) show ?thesis by (auto simp del: getPath.simps)
qed

lemma text_sample_lg:
  "text' sampleCore (sampleCave True) ''mono'' ''muted'' (JObj [(''size'', JStr ''lg'')]) =
     Inr (JObj [(''family'', JStr ''Zed Mono''), (''color'', JStr ''#8b8792''), (''size'', JNum 12)])"
  by code_simp

theorem text_size_choice_witness:
  "text' sampleCore (sampleCave True) ''mono'' ''muted'' (JObj [(''size'', JStr ''lg'')]) =
     Inr (JObj [(''family'', JStr ''Zed Mono''), (''color'', JStr ''#8b8792''), (''size'', JNum 12)]) \<and>
   getProp (JObj [(''size'', JStr ''lg'')]) ''size'' = Inr (JStr ''lg'') \<and>
   truthy (JStr ''lg'') \<and>
   getProp (JObj [(''family'', JStr ''Zed Mono''), (''color'', JStr ''#8b8792''), (''size'', JNum 12)])
     ''size'' = getPath sampleCore [''fontSize'', ''sm'', ''value''] \<and>
   getPath sampleCore [''fontSize'', ''sm'', ''value''] = Inr (JNum 12) \<and>
   getPath sampleCore [''fontSize'', ''lg'', ''value''] = Inr (JNum 16)"
proof -
  have req: "getProp (JObj [(''size'', JStr ''lg'')]) ''size'' = Inr (JStr ''lg'')"
    by (simp add: getProp_def)
  have tr: "truthy (JStr ''lg'')" by simp
  have sm: "getPath sampleCore [''fontSize'', ''sm'', ''value''] = Inr (JNum 12)"
    by (simp add: sampleCore_def getProp_def bindE_def)
  have lg: "getPath sampleCore [''fontSize'', ''lg'', ''value''] = Inr (JNum 16)"
    by (simp add: sampleCore_def getProp_def bindE_def)
  from text_size_choice[OF text_sample_lg req] tr
  have "getProp (JObj [(''family'', JStr ''Zed Mono''), (''color'', JStr ''#8b8792''),
           (''size'', JNum 12)]) ''size'' = getPath sampleCore [''fontSize'', ''sm'', ''value'']"
    by blast
  with text_sample_lg req tr sm lg show ?thesis by blast
qed

text \<open>
  C9. Called without its optional \<open>properties\<close> argument, \<open>text\<close> reads
  \<open>properties.size\<close> of \<open>undefined\<close> and throws a TypeError, whatever the theme, the
  font family and the colour; so does the call site \<open>...text(theme, "mono", "muted")\<close>
  of the editor's \<open>diagnosticHeader.code\<close>.
\<close>

theorem text_without_properties_throws:
  "text' core theme fontFamily color JUndefined = Inl TypeError \<and>
   diagnosticHeader_code core theme = Inl TypeError"
  by (simp add: diagnosticHeader_code_def text'_def getProp_def bindE_def obj_def)


section \<open>The editor's selections\<close>

lemma playerSelection_colors:
  "playerSelection theme n =
     obj [Prop ''cursor'' (getPath theme [''player'', playerKey n, ''cursorColor'', ''value'']),
          Prop ''selection'' (getPath theme [''player'', playerKey n, ''selectionColor'', ''value''])]"
proof (cases "obj [Prop ''cursor'' (getPath theme [''player'', playerKey n, ''cursorColor'', ''value'']),
          Prop ''selection'' (getPath theme [''player'', playerKey n, ''selectionColor'', ''value''])]")
  case (Inl err)
  then show ?thesis
    by (simp add: playerSelection_def player_def bindE_def obj_def del: getPath.simps)
next
  case (Inr v)
  then show ?thesis
    by (simp add: playerSelection_def player_def bindE_def obj_def getProp_def del: getPath.simps)
qed

lemma editor_sample_returns: "\<not> isl (editor sampleCore sampleIconColor (sampleCave True))"
  by code_simp

text \<open>
  C10. In the style that \<open>editor\<close> returns, \<open>selection\<close> is the selection of player 1
  (\<open>player(theme, 1).selection\<close>, the cursor and selection colours of
  \<open>theme.player[1]\<close>) and \<open>guestSelections\<close> is the list of the selections of players
  2 to 8, in that order, seven of them. The player table that \<open>cave\<close> builds has the
  eight keys 1 to 8 and no other.
\<close>

theorem editor_player_selections:
  assumes "editor core iconColor theme = Inr e"
  shows "getProp e ''selection'' = playerSelection theme P1 \<and>
         (\<exists>gs. getProp e ''guestSelections'' = Inr (JArr gs) \<and> length gs = 7 \<and>
               map Inr gs = map (playerSelection theme) [P2, P3, P4, P5, P6, P7, P8]) \<and>
         (\<forall>n. playerSelection theme n =
               obj [Prop ''cursor''
                      (getPath theme [''player'', playerKey n, ''cursorColor'', ''value'']),
                    Prop ''selection''
                      (getPath theme [''player'', playerKey n, ''selectionColor'', ''value''])]) \<and>
         (\<exists>tbl. getProp (cave color fontWeights withOpacity buildPlayer darkTheme) ''player''
                  = Inr (JObj tbl) \<and>
                map fst tbl = map playerKey [P1, P2, P3, P4, P5, P6, P7, P8])"
proof -
  have "\<exists>v. playerSelection theme P1 = Inr v \<and> getProp e ''selection'' = Inr v"
    by (rule obj_final[OF assms[unfolded editor_def]]) simp
  then have first: "getProp e ''selection'' = playerSelection theme P1"
    by auto
  have "\<exists>v. arrLit (map (playerSelection theme) [P2, P3, P4, P5, P6, P7, P8]) [] = Inr v
            \<and> getProp e ''guestSelections'' = Inr v"
    by (rule obj_final[OF assms[unfolded editor_def]]) simp
  then obtain v where a: "arrLit (map (playerSelection theme) [P2, P3, P4, P5, P6, P7, P8]) [] = Inr v"
    and g: "getProp e ''guestSelections'' = Inr v"
    by (elim exE conjE)
  from arrLit_elems[OF a] obtain gs where gs: "v = JArr gs"
    "map Inr gs = map (playerSelection theme) [P2, P3, P4, P5, P6, P7, P8]"
    by auto
  from gs(2) have "length (map Inr gs :: (error + jsval) list) = 7" by simp
  then have len: "length gs = 7" by simp
  from g gs len have second: "\<exists>gs. getProp e ''guestSelections'' = Inr (JArr gs) \<and> length gs = 7 \<and>
               map Inr gs = map (playerSelection theme) [P2, P3, P4, P5, P6, P7, P8]"
    by blast
  have third: "\<exists>tbl. getProp (cave color fontWeights withOpacity buildPlayer darkTheme) ''player''
                  = Inr (JObj tbl) \<and>
                map fst tbl = map playerKey [P1, P2, P3, P4, P5, P6, P7, P8]"
    by (simp add: cave_def getProp_def Let_def)
  have colours: "\<forall>n. playerSelection theme n =
               obj [Prop ''cursor''
                      (getPath theme [''player'', playerKey n, ''cursorColor'', ''value'']),
                    Prop ''selection''
                      (getPath theme [''player'', playerKey n, ''selectionColor'', ''value''])]"
    by (simp only: playerSelection_colors) simp
  from first second colours third show ?thesis by (intro conjI)
qed

theorem editor_player_selections_witness:
  "\<exists>e. editor sampleCore sampleIconColor (sampleCave True) = Inr e \<and>
       getProp e ''selection'' = playerSelection (sampleCave True) P1 \<and>
       (\<exists>gs. getProp e ''guestSelections'' = Inr (JArr gs) \<and> length gs = 7 \<and>
             map Inr gs = map (playerSelection (sampleCave True)) [P2, P3, P4, P5, P6, P7, P8])"
proof -
  from editor_sample_returns obtain e where
    e: "editor sampleCore sampleIconColor (sampleCave True) = Inr e"
    by (cases "editor sampleCore sampleIconColor (sampleCave True)") simp_all
  from editor_player_selections[OF e] e show ?thesis by blast
qed


section \<open>The domain of the neutral ramp of rose-pine-dawn\<close>



section \<open>Inheritance resolution: override wins, cycles fail\<close>














lemma refsOfProps_member: "(k, v) \<in> set kvs \<Longrightarrow> set (refsOf v) \<subseteq> set (refsOfProps kvs)"
  by (induction kvs) auto

lemma refsOf_child: "map_of kvs k = Some v \<Longrightarrow> set (refsOf v) \<subseteq> set (refsOf (JObj kvs))"
  using refsOfProps_member[of k v kvs] by (auto dest: map_of_SomeD)

lemma refsOf_lookupPath: "lookupPath n ks = Some m \<Longrightarrow> set (refsOf m) \<subseteq> set (refsOf n)"
proof (induction ks arbitrary: n)
  case Nil
  then show ?case by simp
next
  case (Cons k ks)
  from Cons.prems obtain kvs w where n: "n = JObj kvs" and w: "map_of kvs k = Some w"
    and rest: "lookupPath w ks = Some m"
    by (cases n) (auto split: option.splits)
  from Cons.IH[OF rest] refsOf_child[OF w] n show ?case by blast
qed

lemma refsOf_lookupRef: "lookupRef tree path = Some target \<Longrightarrow> set (refsOf target) \<subseteq> set (refsOf tree)"
  by (auto simp: lookupRef_def split: option.splits jsval.splits dest: refsOf_lookupPath)

lemma enoughFuel_step:
  assumes "enoughFuel tree visiting fuel" and "path \<notin> set visiting" and "path \<in> set (refsOf tree)"
  shows "\<exists>f. fuel = Suc f \<and> enoughFuel tree (path # visiting) f"
proof (cases fuel)
  case 0
  with assms(1) have d: "distinct visiting" and s: "set visiting \<subseteq> set (refsOf tree)"
    and c: "card (set (refsOf tree)) \<le> length visiting"
    by (simp_all add: enoughFuel_def)
  from d have "card (set visiting) = length visiting" by (rule distinct_card)
  with c have "card (set (refsOf tree)) \<le> card (set visiting)" by simp
  with s have "set visiting = set (refsOf tree)" by (intro card_seteq) simp_all
  with assms(2,3) show ?thesis by simp
next
  case (Suc f)
  with assms show ?thesis by (simp add: enoughFuel_def)
qed

lemma resolve_errors:
  "enoughFuel tree visiting fuel \<longrightarrow> set (refsOf n) \<subseteq> set (refsOf tree) \<longrightarrow>
     resolveNode tree visiting fuel n = Inl e \<longrightarrow> extendsFailure tree e"
  "enoughFuel tree visiting fuel \<longrightarrow> set (refsOfProps kvs) \<subseteq> set (refsOf tree) \<longrightarrow>
     resolveProps tree visiting fuel kvs = Inl e \<longrightarrow> extendsFailure tree e"
proof (induction tree visiting fuel n and tree visiting fuel kvs rule: resolveNode_resolveProps.induct)
  case (1 tree visiting fuel kvs)
  show ?case
  proof (intro impI)
    assume inv: "enoughFuel tree visiting fuel"
      and sub: "set (refsOf (JObj kvs)) \<subseteq> set (refsOf tree)"
      and a: "resolveNode tree visiting fuel (JObj kvs) = Inl e"
    from sub have subp: "set (refsOfProps kvs) \<subseteq> set (refsOf tree)" by simp
    show "extendsFailure tree e"
    proof (cases "\<exists>path. map_of kvs ''extends'' = Some (JStr path)")
      case True
      then obtain path where ext: "map_of kvs ''extends'' = Some (JStr path)" by blast
      with sub have ref: "path \<in> set (refsOf tree)" by auto
      show ?thesis
      proof (cases "path \<in> set visiting")
        case True
        with a ext show ?thesis by (simp add: extendsFailure_def)
      next
        case nv: False
        show ?thesis
        proof (cases "lookupRef tree path")
          case None
          with a ext nv ref show ?thesis by (auto simp: extendsFailure_def)
        next
          case (Some target)
          from enoughFuel_step[OF inv nv ref] obtain f where
            f: "fuel = Suc f" and inv': "enoughFuel tree (path # visiting) f" by blast
          from refsOf_lookupRef[OF Some] inv' "1.IH"(5)[OF ext refl nv Some f]
          have ih1: "resolveNode tree (path # visiting) f target = Inl e \<longrightarrow> extendsFailure tree e"
            by simp
          show ?thesis
          proof (cases "resolveNode tree (path # visiting) f target")
            case (Inl e')
            with a ext nv Some f have "e' = e" by (simp add: bindE_def)
            with Inl ih1 show ?thesis by simp
          next
            case (Inr base)
            from subp inv "1.IH"(6)[OF ext refl nv Some f]
            have ih2: "resolveProps tree visiting fuel kvs = Inl e \<longrightarrow> extendsFailure tree e" by simp
            from a ext nv Some f Inr have "resolveProps tree visiting fuel kvs = Inl e"
              by (cases "resolveProps tree visiting fuel kvs") (simp_all add: bindE_def)
            with ih2 show ?thesis by simp
          qed
        qed
      qed
    next
      case False
      with a have p: "resolveProps tree visiting fuel kvs = Inl e"
        by (cases "resolveProps tree visiting fuel kvs")
           (auto simp: bindE_def split: option.splits jsval.splits)
      from False have "map_of kvs ''extends'' = None \<or>
         (\<exists>x. map_of kvs ''extends'' = Some x \<and> (\<forall>path. x \<noteq> JStr path))"
        by (cases "map_of kvs ''extends''") auto
      then show ?thesis
      proof
        assume n: "map_of kvs ''extends'' = None"
        from "1.IH"(1)[OF n] p subp inv show ?thesis by simp
      next
        assume "\<exists>x. map_of kvs ''extends'' = Some x \<and> (\<forall>path. x \<noteq> JStr path)"
        then obtain x where x: "map_of kvs ''extends'' = Some x" "\<forall>path. x \<noteq> JStr path" by blast
        then show ?thesis using "1.IH"(2,3,4,7,8)[OF x(1)] p subp inv
          by (cases x) simp_all
      qed
    qed
  qed
next
  case (4 tree visiting fuel k v kvs)
  show ?case
  proof (intro impI)
    assume inv: "enoughFuel tree visiting fuel"
      and sub: "set (refsOfProps ((k, v) # kvs)) \<subseteq> set (refsOf tree)"
      and a: "resolveProps tree visiting fuel ((k, v) # kvs) = Inl e"
    from sub have s1: "set (refsOf v) \<subseteq> set (refsOf tree)"
      and s2: "set (refsOfProps kvs) \<subseteq> set (refsOf tree)" by simp_all
    show "extendsFailure tree e"
    proof (cases "resolveNode tree visiting fuel v")
      case (Inl e')
      with a have "e' = e" by (simp add: bindE_def)
      with Inl "4.IH"(1) s1 inv show ?thesis by simp
    next
      case (Inr v')
      with a have "resolveProps tree visiting fuel kvs = Inl e"
        by (cases "resolveProps tree visiting fuel kvs") (simp_all add: bindE_def)
      with "4.IH"(2) s2 inv show ?thesis by simp
    qed
  qed
qed simp_all

lemma chain_targets:
  "extendsChain tree n ns \<Longrightarrow>
   \<forall>m \<in> set (butlast (n # ns)). \<exists>m' \<in> set ns. extendsTarget tree m = Some m'"
proof (induction ns arbitrary: n)
  case Nil
  then show ?case by simp
next
  case (Cons m0 ms)
  from Cons.prems have t: "extendsTarget tree n = Some m0" and c: "extendsChain tree m0 ms"
    by simp_all
  from Cons.IH[OF c] have "\<forall>m \<in> set (butlast (m0 # ms)). \<exists>m' \<in> set (m0 # ms). extendsTarget tree m = Some m'"
    by auto
  with t show ?case by auto
qed

lemma cycle_closed:
  assumes "extendsCycle tree n ns"
  shows "n \<in> set ns \<and> (\<forall>m \<in> set ns. \<exists>m' \<in> set ns. extendsTarget tree m = Some m')"
proof -
  from assms have ne: "ns \<noteq> []" and c: "extendsChain tree n ns" and l: "last ns = n"
    by (simp_all add: extendsCycle_def)
  from ne l have mem: "n \<in> set ns" by (metis last_in_set)
  from ne l have "set (butlast (n # ns)) = set ns"
    by (metis append_butlast_last_id butlast.simps(2) list.simps(15) set_append Un_insert_right
        sup_bot.right_neutral list.set(1) insert_commute Un_commute insert_is_Un)
  with chain_targets[OF c] mem show ?thesis by simp
qed

lemma extendsTarget_ref:
  assumes "extendsTarget tree m = Some m'"
  obtains kvs path where "m = JObj kvs" "map_of kvs ''extends'' = Some (JStr path)"
    "lookupRef tree path = Some m'"
  using assms by (auto simp: extendsTarget_def split: jsval.splits option.splits)


lemma enoughFuel_start: "enoughFuel tree [] (length (refsOf tree))"
  by (simp add: enoughFuel_def card_length)

lemma resolve_never_exceeds_depth:
  "resolve tree \<noteq> Inl DepthExceeded"
proof
  assume "resolve tree = Inl DepthExceeded"
  then have "resolveNode tree [] (length (refsOf tree)) tree = Inl DepthExceeded"
    by (simp add: resolve_def split: if_splits)
  then have "extendsFailure tree DepthExceeded"
    using resolve_errors(1)[of tree "[]" "length (refsOf tree)" tree DepthExceeded]
      enoughFuel_start[of tree]
    by simp
  then show False by (simp add: extendsFailure_def)
qed

lemma nodesOfProps_member: "(k, v) \<in> set kvs \<Longrightarrow> set (nodesOf v) \<subseteq> set (nodesOfProps kvs)"
  by (induction kvs) auto

lemma nodesOf_lookupPath:
  "lookupPath n ks = Some (JObj kvs) \<Longrightarrow> JObj kvs \<in> set (nodesOf n)"
proof (induction ks arbitrary: n)
  case Nil
  then show ?case by simp
next
  case (Cons k ks)
  from Cons.prems obtain ps w where n: "n = JObj ps" and w: "map_of ps k = Some w"
    and rest: "lookupPath w ks = Some (JObj kvs)"
    by (cases n) (auto split: option.splits)
  from w have "(k, w) \<in> set ps" by (rule map_of_SomeD)
  from nodesOfProps_member[OF this] Cons.IH[OF rest] n show ?case by auto
qed

lemma refsOf_nodesOf:
  "m \<in> set (nodesOf n) \<longrightarrow> set (refsOf m) \<subseteq> set (refsOf n)"
  "m \<in> set (nodesOfProps kvs) \<longrightarrow> set (refsOf m) \<subseteq> set (refsOfProps kvs)"
  by (induction n and kvs rule: nodesOf_nodesOfProps.induct) auto

lemma closed_extendsAfter:
  assumes closed: "\<forall>m \<in> S. \<exists>m' \<in> S. extendsTarget tree m = Some m'"
  shows "m \<in> S \<Longrightarrow> \<exists>m' \<in> S. extendsAfter tree k m = Some m'"
proof (induction k arbitrary: m)
  case 0
  then show ?case by simp
next
  case (Suc k)
  from closed Suc.prems obtain m1 where m1: "m1 \<in> S" and t: "extendsTarget tree m = Some m1"
    by blast
  from Suc.IH[OF m1] t show ?case by simp
qed

lemma cycle_cyclic:
  assumes node: "lookupPath tree ks = Some n" and cyc: "extendsCycle tree n ns"
  shows "cyclic tree"
proof -
  from cycle_closed[OF cyc] have mem: "n \<in> set ns"
    and closed: "\<forall>m \<in> set ns. \<exists>m' \<in> set ns. extendsTarget tree m = Some m'"
    by simp_all
  from closed mem obtain m' where "extendsTarget tree n = Some m'" by blast
  then obtain kvs where n: "n = JObj kvs" by (auto elim: extendsTarget_ref)
  with node have innodes: "n \<in> set (nodesOf tree)" by (simp add: nodesOf_lookupPath)
  from closed_extendsAfter[OF closed mem, of "Suc (length (refsOf tree))"]
  have "extendsAfter tree (Suc (length (refsOf tree))) n \<noteq> None" by auto
  with innodes show ?thesis unfolding cyclic_def list_ex_iff by blast
qed

lemma extendsAfter_add:
  "extendsAfter tree (i + d) n =
     (case extendsAfter tree i n of None \<Rightarrow> None | Some m \<Rightarrow> extendsAfter tree d m)"
  by (induction i arbitrary: n) (simp_all split: option.splits)

lemma extendsAfter_prefix:
  assumes "extendsAfter tree k n = Some m" and "i \<le> k"
  shows "\<exists>m'. extendsAfter tree i n = Some m' \<and> extendsAfter tree (k - i) m' = Some m"
proof -
  from assms(2) have "k = i + (k - i)" by simp
  with assms(1) extendsAfter_add[of tree i "k - i" n] show ?thesis
    by (cases "extendsAfter tree i n") simp_all
qed

lemma extendsAfter_refs:
  "set (refsOf n) \<subseteq> set (refsOf tree) \<Longrightarrow> extendsAfter tree i n = Some m \<Longrightarrow>
   set (refsOf m) \<subseteq> set (refsOf tree)"
proof (induction i arbitrary: n)
  case 0
  then show ?case by simp
next
  case (Suc i)
  from Suc.prems(2) obtain m1 where t: "extendsTarget tree n = Some m1"
    and r: "extendsAfter tree i m1 = Some m"
    by (auto split: option.splits)
  from t obtain p where "lookupRef tree p = Some m1" by (auto elim: extendsTarget_ref)
  from Suc.IH[OF refsOf_lookupRef[OF this] r] show ?case .
qed

lemma targets_card:
  "finite {m. \<exists>p \<in> set (refsOf tree). lookupRef tree p = Some m} \<and>
   card {m. \<exists>p \<in> set (refsOf tree). lookupRef tree p = Some m} \<le> length (refsOf tree)"
proof -
  let ?T = "{m. \<exists>p \<in> set (refsOf tree). lookupRef tree p = Some m}"
  have sub: "?T \<subseteq> (\<lambda>p. the (lookupRef tree p)) ` set (refsOf tree)"
    by force
  have fin: "finite ((\<lambda>p. the (lookupRef tree p)) ` set (refsOf tree))" by simp
  from sub fin have f: "finite ?T" by (rule finite_subset)
  from sub fin have "card ?T \<le> card ((\<lambda>p. the (lookupRef tree p)) ` set (refsOf tree))"
    by (intro card_mono)
  also have "\<dots> \<le> card (set (refsOf tree))" by (rule card_image_le) simp
  also have "\<dots> \<le> length (refsOf tree)" by (rule card_length)
  finally show ?thesis using f by simp
qed

lemma extendsAfter_target:
  assumes sub: "set (refsOf n) \<subseteq> set (refsOf tree)"
    and a: "extendsAfter tree (Suc i) n = Some m"
  shows "\<exists>p \<in> set (refsOf tree). lookupRef tree p = Some m"
proof -
  from extendsAfter_prefix[OF a, of i] obtain m1 where
    m1: "extendsAfter tree i n = Some m1" and l: "extendsAfter tree (Suc i - i) m1 = Some m"
    by auto
  from l have t: "extendsTarget tree m1 = Some m" by (auto split: option.splits)
  from extendsAfter_refs[OF sub m1] have s1: "set (refsOf m1) \<subseteq> set (refsOf tree)" .
  from t obtain kvs path where "m1 = JObj kvs" "map_of kvs ''extends'' = Some (JStr path)"
    "lookupRef tree path = Some m"
    by (rule extendsTarget_ref)
  with s1 show ?thesis by auto
qed

lemma extendsAfter_chain:
  "extendsAfter tree (Suc d) n = Some m \<Longrightarrow>
   \<exists>ns. ns \<noteq> [] \<and> extendsChain tree n ns \<and> last ns = m"
proof (induction d arbitrary: n)
  case 0
  then have "extendsTarget tree n = Some m" by (auto split: option.splits)
  then have "[m] \<noteq> [] \<and> extendsChain tree n [m] \<and> last [m] = m" by simp
  then show ?case by blast
next
  case (Suc d)
  from Suc.prems obtain m1 where t: "extendsTarget tree n = Some m1"
    and r: "extendsAfter tree (Suc d) m1 = Some m"
    by (auto split: option.splits)
  from Suc.IH[OF r] obtain ns where ns: "ns \<noteq> []" "extendsChain tree m1 ns" "last ns = m" by blast
  with t have "m1 # ns \<noteq> [] \<and> extendsChain tree n (m1 # ns) \<and> last (m1 # ns) = m" by simp
  then show ?case by blast
qed

lemma cyclic_has_cycle:
  assumes "cyclic tree"
  shows "\<exists>ks n ns. lookupPath tree ks = Some n \<and> extendsCycle tree n ns"
proof -
  let ?G = "\<exists>ks n ns. lookupPath tree ks = Some n \<and> extendsCycle tree n ns"
  let ?T = "{m. \<exists>p \<in> set (refsOf tree). lookupRef tree p = Some m}"
  define K where "K = Suc (length (refsOf tree))"
  from assms obtain n0 mK where n0: "n0 \<in> set (nodesOf tree)"
    and run: "extendsAfter tree K n0 = Some mK"
    by (auto simp: cyclic_def list_ex_iff K_def)
  from refsOf_nodesOf(1)[of n0 tree] n0 have sub: "set (refsOf n0) \<subseteq> set (refsOf tree)" by simp
  define f where "f i = the (extendsAfter tree i n0)" for i
  have step: "\<And>i. i \<le> K \<Longrightarrow> extendsAfter tree i n0 = Some (f i)"
  proof -
    fix i assume "i \<le> K"
    from extendsAfter_prefix[OF run this] obtain m' where "extendsAfter tree i n0 = Some m'"
      by blast
    then show "extendsAfter tree i n0 = Some (f i)" by (simp add: f_def)
  qed
  have img: "f ` {1..K} \<subseteq> ?T"
  proof
    fix x assume "x \<in> f ` {1..K}"
    then obtain i where i: "1 \<le> i" "i \<le> K" and x: "x = f i" by auto
    from i obtain j where j: "i = Suc j" by (cases i) simp_all
    from step[OF i(2)] j have "extendsAfter tree (Suc j) n0 = Some (f i)" by simp
    from extendsAfter_target[OF sub this] x show "x \<in> ?T" by simp
  qed
  from targets_card[of tree] have fin: "finite ?T" and c: "card ?T \<le> length (refsOf tree)"
    by simp_all
  from img fin have "card (f ` {1..K}) \<le> card ?T" by (intro card_mono)
  with c have "card (f ` {1..K}) < card {1..K}" by (simp add: K_def)
  then have "\<not> inj_on f {1..K}" by (rule pigeonhole)
  then obtain a b where ab: "a \<in> {1..K}" "b \<in> {1..K}" "a \<noteq> b" "f a = f b"
    by (auto simp: inj_on_def)
  have main: "\<And>i j. 1 \<le> i \<Longrightarrow> i < j \<Longrightarrow> j \<le> K \<Longrightarrow> f i = f j \<Longrightarrow> ?G"
  proof -
    fix i j assume i: "1 \<le> i" and ij: "i < j" and j: "j \<le> K" and e: "f i = f j"
    from extendsAfter_prefix[OF step[OF j], of i] ij step[of i] j
    have "extendsAfter tree (j - i) (f i) = Some (f j)" by auto
    moreover from ij obtain d where d: "j - i = Suc d" by (cases "j - i") simp_all
    ultimately have "extendsAfter tree (Suc d) (f i) = Some (f i)" using e by simp
    from extendsAfter_chain[OF this] obtain ns where
      "ns \<noteq> []" "extendsChain tree (f i) ns" "last ns = f i" by blast
    then have cyc: "extendsCycle tree (f i) ns" by (simp add: extendsCycle_def)
    from i obtain i0 where "i = Suc i0" by (cases i) simp_all
    with step[of i] ij j have "extendsAfter tree (Suc i0) n0 = Some (f i)" by simp
    from extendsAfter_target[OF sub this] obtain p where "lookupRef tree p = Some (f i)"
      by auto
    then obtain ks where "lookupPath tree ks = Some (f i)"
      by (auto simp: lookupRef_def split: option.splits jsval.splits)
    with cyc show ?G by blast
  qed
  from ab have "a < b \<or> b < a" by auto
  then show ?thesis
  proof
    assume "a < b"
    with main[of a b] ab show ?thesis by auto
  next
    assume "b < a"
    with main[of b a] ab show ?thesis by auto
  qed
qed

text \<open>
  The rejection of cycles is exact: a tree is rejected as cyclic when, and only when, one
  of its nodes is on a cycle of references. A tree without one is resolved from its
  root, and a chain of references that ends is followed to its end.
\<close>

lemma cyclic_iff:
  "cyclic tree \<longleftrightarrow> (\<exists>ks n ns. lookupPath tree ks = Some n \<and> extendsCycle tree n ns)"
  using cyclic_has_cycle[of tree] cycle_cyclic[of tree] by blast

lemma resolve_samples:
  "resolve selfTree = Inl CyclicExtendsError"
  "resolve mutualTree = Inl CyclicExtendsError"
  "resolve (JObj [(''w'', JObj [(''extends'', JStr ''$nope'')])]) =
     Inl (DanglingExtendsError ''$nope'')"
  "resolve chainTree = Inr (JObj
     [(''a'', JObj [(''r'', JNum 4), (''p'', JNum 1), (''q'', JNum 2)]),
      (''b'', JObj [(''r'', JNum 4), (''p'', JNum 3), (''q'', JNum 2)]),
      (''c'', JObj [(''r'', JNum 4), (''p'', JNum 3)]),
      (''d'', JObj [(''r'', JNum 4)])])"
  by code_simp+




section \<open>Endpoints of a two-seed ramp\<close>

lemma two_seed_breaks: "map (\<lambda>i. real i / real (length [c0, c1 :: labColor] - 1)) [0..<length [c0, c1]] = [0, 1]"
  by (simp add: upt_rec)

text \<open>
  C7. The ramp built from two seed colours \<open>c0\<close> and \<open>c1\<close> samples to exactly
  \<open>c0\<close> at position 0 and to exactly \<open>c1\<close> at position 1, and a position outside
  [0,1] is clamped: it samples as 0 does when below and as 1 does when above.
\<close>

theorem ramp_endpoints:
  "\<exists>R. buildRamp [c0, c1] None = Inr R \<and>
       sample R 0 = c0 \<and> sample R 1 = c1 \<and>
       (\<forall>p. sample R p = sample R (max 0 (min 1 p))) \<and>
       (\<forall>p. p \<le> 0 \<longrightarrow> sample R p = c0) \<and>
       (\<forall>p. 1 \<le> p \<longrightarrow> sample R p = c1)"
proof -
  define R where "R = \<lparr>rampSeeds = [c0, c1], rampBreaks = [0, 1 :: real]\<rparr>"
  have b: "buildRamp [c0, c1] None = Inr R"
    unfolding buildRamp_def R_def using two_seed_breaks[of c0 c1] by simp
  have s: "sample R p =
      (if max 0 (min 1 p) \<le> 0 then c0 else interpolate c0 c1 (max 0 (min 1 p)))" for p
  proof -
    show ?thesis unfolding sample_def R_def by (auto simp: min_def max_def)
  qed
  have m1: "interpolate c0 c1 1 = c1"
    by (cases c0; cases c1) (simp add: interpolate_def)
  have lo: "\<forall>p. p \<le> 0 \<longrightarrow> sample R p = c0"
  proof (intro allI impI)
    fix p :: real
    assume "p \<le> 0"
    then have "max 0 (min 1 p) = 0" by simp
    then show "sample R p = c0" by (simp add: s)
  qed
  have hi: "\<forall>p. 1 \<le> p \<longrightarrow> sample R p = c1"
  proof (intro allI impI)
    fix p :: real
    assume "1 \<le> p"
    then have "max 0 (min 1 p) = 1" by simp
    then show "sample R p = c1" by (simp add: s m1)
  qed
  have cl: "\<forall>p. sample R p = sample R (max 0 (min 1 p))"
    by (simp add: sample_def)
  from lo have e0: "sample R 0 = c0" by simp
  from hi have e1: "sample R 1 = c1" by simp
  from b e0 e1 cl lo hi show ?thesis by blast
qed

theorem ramp_endpoints_witness:
  "buildRamp [(20, 0, 0), (90, 10, -10)] None
     = Inr \<lparr>rampSeeds = [(20, 0, 0), (90, 10, -10)], rampBreaks = [0, 1]\<rparr> \<and>
   sample \<lparr>rampSeeds = [(20, 0, 0), (90, 10, -10)], rampBreaks = [0, 1]\<rparr> 0 = (20, 0, 0) \<and>
   sample \<lparr>rampSeeds = [(20, 0, 0), (90, 10, -10)], rampBreaks = [0, 1]\<rparr> 1 = (90, 10, -10) \<and>
   (- 3 :: real) \<le> 0 \<and>
   sample \<lparr>rampSeeds = [(20, 0, 0), (90, 10, -10)], rampBreaks = [0, 1]\<rparr> (- 3) = (20, 0, 0) \<and>
   (1 :: real) \<le> 2 \<and>
   sample \<lparr>rampSeeds = [(20, 0, 0), (90, 10, -10)], rampBreaks = [0, 1]\<rparr> 2 = (90, 10, -10) \<and>
   sample \<lparr>rampSeeds = [(20, 0, 0), (90, 10, -10)], rampBreaks = [0, 1]\<rparr> (1 / 2) = (55, 5, -5)"
proof -
  have b: "buildRamp [(20, 0, 0), (90, 10, -10)] None
     = Inr \<lparr>rampSeeds = [(20, 0, 0), (90, 10, -10)], rampBreaks = [0, 1]\<rparr>"
    unfolding buildRamp_def using two_seed_breaks[of "(20, 0, 0)" "(90, 10, -10)"] by simp
  from ramp_endpoints[of "(20, 0, 0)" "(90, 10, -10)"] b
  have r: "sample \<lparr>rampSeeds = [(20, 0, 0), (90, 10, -10)], rampBreaks = [0, 1]\<rparr> 0 = (20, 0, 0)"
    "sample \<lparr>rampSeeds = [(20, 0, 0), (90, 10, -10)], rampBreaks = [0, 1]\<rparr> 1 = (90, 10, -10)"
    "sample \<lparr>rampSeeds = [(20, 0, 0), (90, 10, -10)], rampBreaks = [0, 1]\<rparr> (- 3) = (20, 0, 0)"
    "sample \<lparr>rampSeeds = [(20, 0, 0), (90, 10, -10)], rampBreaks = [0, 1]\<rparr> 2 = (90, 10, -10)"
    by auto
  have h: "sample \<lparr>rampSeeds = [(20, 0, 0), (90, 10, -10)], rampBreaks = [0, 1]\<rparr> (1 / 2) = (55, 5, -5)"
    by (simp add: sample_def interpolate_def)
  from b r h show ?thesis by simp
qed


end
